theory Spec2Isabelle
  imports Main "HOL-Library.Word"
begin

section \<open>The sharded gateway connection of novus/api/gateway/gateway.py\<close>

text \<open>
  The embedding follows \<^verbatim>\<open>GatewayShard\<close> and \<^verbatim>\<open>GatewayConnection\<close>. Each coroutine is
  a function on the shard's fields that runs to completion; what a suspension point
  gets from the outside world (a frame read from the socket, the outcome of opening
  a websocket, an acknowledgement or a timeout) is an argument of the function. The
  result is \<open>None\<close> for a coroutine that is still waiting when the script of outside
  events ends. \<^verbatim>\<open>Task.cancel()\<close> records the request in the task; a task that asks
  for its own cancellation gets \<^verbatim>\<open>asyncio.CancelledError\<close> at its next suspension
  point, and for any other task the delivery is an outside event.
\<close>

subsection \<open>Values, exceptions and the library the code calls\<close>

type_synonym byte = "8 word"

datatype json =
    JNull
  | JBool bool
  | JInt int
  | JStr string
  | JList "json list"
  | JDict "(string \<times> json) list"

datatype exn =
    GatewayClose
  | GatewayException bool
  | ValueError
  | KeyError
  | TypeError
  | MemoryError
  | TimeoutError
  | CancelledError
  | UnicodeDecodeError
  | JSONDecodeError

text \<open>
  \<open>GatewayException b\<close> is an instance of \<^verbatim>\<open>GatewayException\<close> (or of a subclass)
  whose attribute \<^verbatim>\<open>reconnect\<close> is \<open>b\<close>. \<^verbatim>\<open>asyncio.CancelledError\<close> derives from
  \<^verbatim>\<open>BaseException\<close>, so a handler \<^verbatim>\<open>except Exception\<close> lets it through.
\<close>

definition is_Exception :: "exn \<Rightarrow> bool" where
  "is_Exception e = (e \<noteq> CancelledError)"

datatype GatewayOpcode =
    Op_dispatch
  | Op_heartbeat
  | Op_identify
  | Op_presence
  | Op_resume
  | Op_reconnect
  | Op_request_members
  | Op_invalidate_session
  | Op_hello
  | Op_heartbeat_ack

text \<open>The incoming message \<^verbatim>\<open>{"op": int, "t": str?, "s": int?, "d": any}\<close> after \<^verbatim>\<open>json.loads\<close>.\<close>

record incoming =
  i_op :: int
  i_t :: "string option"
  i_s :: "int option"
  i_d :: json

type_synonym message = "GatewayOpcode \<times> string option \<times> int option \<times> json"

text \<open>
  The library functions and tables that gateway.py uses and that are defined
  elsewhere: the zlib stream (its output depends on all the bytes the
  decompression object was fed before, \<open>None\<close> when it raises), \<^verbatim>\<open>bytes.decode\<close>,
  \<^verbatim>\<open>json.loads\<close>, the enum constructor \<^verbatim>\<open>GatewayOpcode(...)\<close>, the table
  \<^verbatim>\<open>GatewayException.all_exceptions\<close>, the \<^verbatim>\<open>reconnect\<close> attribute of the base class
  \<^verbatim>\<open>GatewayException\<close>, and \<^verbatim>\<open>platform.system()\<close>.
\<close>

record env =
  zlib_decompress :: "byte list \<Rightarrow> byte list \<Rightarrow> byte list option"
  bytes_decode :: "byte list \<Rightarrow> exn + string"
  json_loads :: "string \<Rightarrow> exn + incoming"
  opcode_of :: "int \<Rightarrow> GatewayOpcode option"
  all_exceptions :: "int \<Rightarrow> exn option"
  base_reconnect :: bool
  platform_system :: string

subsection \<open>The websocket\<close>

datatype WSMsgType =
  CONTINUATION | TEXT | BINARY | PING | PONG | CLOSE | CLOSING | CLOSED | ERROR

datatype ws_data = Bytes "byte list" | Str string | Code int | NoData

record WSMessage =
  msg_type :: WSMsgType
  msg_data :: ws_data

text \<open>What \<^verbatim>\<open>await self.socket.receive()\<close> does: a message, or one of the three
  classes of exception that \<^verbatim>\<open>receive\<close> tells apart.\<close>

datatype read_outcome =
    Received WSMessage
  | ReadGatewayException bool
  | ReadCancelled
  | ReadException

datatype command_data =
    MISSING
  | IdentifyData "string option" string int int int
  | ResumeData "string option" "string option" "int option"
  | HeartbeatData "int option"
  | RequestMembers string int "string option" "string list option" "string option"

type_synonym command = "GatewayOpcode \<times> command_data"

record socket =
  closed :: bool
  outbox :: "command list"

subsection \<open>Tasks\<close>

datatype coroutine =
    HeartbeatCoro json bool
  | MessageHandlerCoro
  | ReconnectCoro
  | ConnectCoro json
  | DispatchCoro "string option" json "int option"

record task =
  coro :: coroutine
  cancel_requested :: bool
  is_done :: bool

definition create_task :: "coroutine \<Rightarrow> task" where
  "create_task c = \<lparr>coro = c, cancel_requested = False, is_done = False\<rparr>"

definition cancel :: "task \<Rightarrow> task" where
  "cancel t = t\<lparr>cancel_requested := True\<rparr>"

subsection \<open>The shard\<close>

text \<open>
  \<^verbatim>\<open>asyncio.Event\<close> objects of the shard itself are booleans (\<^verbatim>\<open>is_set()\<close>). The
  events of \<^verbatim>\<open>chunk_event\<close> are handed to callers, so they live in a store
  \<open>events\<close> and are named by their index.
\<close>

record shard =
  token :: "string option"
  ws_url :: string
  connecting :: bool
  ready_received :: bool
  heartbeat_received :: bool
  state :: string
  shard_id :: int
  shard_count :: int
  intents :: int
  socket :: "socket option"
  buffer :: "byte list"
  zlib :: "byte list"
  heartbeat_task :: "task option"
  message_task :: "task option"
  sequence :: "int option"
  resume_url :: string
  session_id :: "string option"
  chunk_counter :: "(string \<times> int) list"
  chunk_groups :: "(string \<times> json list) list"
  chunk_event :: "(string \<times> nat) list"
  events :: "bool list"
  running_tasks :: "task list"

text \<open>\<^verbatim>\<open>GatewayShard.__init__\<close>.\<close>

definition GatewayShard :: "string option \<Rightarrow> string \<Rightarrow> int \<Rightarrow> int \<Rightarrow> int \<Rightarrow> shard" where
  "GatewayShard tok url sid cnt ints =
     \<lparr>token = tok, ws_url = url,
      connecting = False, ready_received = False, heartbeat_received = False,
      state = ''Closed'',
      shard_id = sid, shard_count = cnt, intents = ints,
      socket = None, buffer = [], zlib = [],
      heartbeat_task = None, message_task = None, sequence = None,
      resume_url = url, session_id = None,
      chunk_counter = [], chunk_groups = [], chunk_event = [], events = [],
      running_tasks = []\<rparr>"

text \<open>\<^verbatim>\<open>self.socket and not self.socket.closed\<close>.\<close>

definition socket_open :: "shard \<Rightarrow> bool" where
  "socket_open s = (case socket s of None \<Rightarrow> False | Some k \<Rightarrow> \<not> closed k)"

text \<open>\<^verbatim>\<open>t = asyncio.create_task(...); self.running_tasks.add(t)\<close>. The done-callback
  that discards a finished task is not part of the model: \<open>running_tasks\<close> lists
  the tasks in the order they were created.\<close>

definition spawn :: "coroutine \<Rightarrow> shard \<Rightarrow> shard" where
  "spawn c s = s\<lparr>running_tasks := running_tasks s @ [create_task c]\<rparr>"

subsection \<open>\<^verbatim>\<open>GatewayShard.running\<close> and \<^verbatim>\<open>GatewayConnection.wait\<close>\<close>

definition running :: "shard \<Rightarrow> bool" where
  "running s =
     (case heartbeat_task s of None \<Rightarrow> True
      | Some hb \<Rightarrow>
          if \<not> is_done hb then True
          else (case socket s of None \<Rightarrow> True
            | Some k \<Rightarrow>
                if \<not> closed k then True
                else (case message_task s of None \<Rightarrow> True
                  | Some mt \<Rightarrow>
                      if \<not> is_done mt then True
                      else if connecting s then True
                      else False)))"

text \<open>
  \<^verbatim>\<open>wait\<close> looks at the shards once per second. Its argument lists what it finds at
  each look (the dict \<^verbatim>\<open>self.shards\<close>, keyed by shard id); the result is the number of
  one-second sleeps before it returned, \<open>None\<close> when it is still looping after the last
  look.
\<close>

fun wait :: "(int \<times> shard) list list \<Rightarrow> nat option" where
  "wait [] = None"
| "wait (shards # later) =
     (if list_ex (\<lambda>kv. running (snd kv)) shards then map_option Suc (wait later)
      else Some 0)"

subsection \<open>\<^verbatim>\<open>GatewayConnection.connect\<close>: creating the shards\<close>

text \<open>\<^verbatim>\<open>list(range(shard_count))\<close>.\<close>

definition range_list :: "int \<Rightarrow> int list" where
  "range_list n = map int [0 ..< nat n]"

text \<open>\<^verbatim>\<open>self.shards[i] = gs\<close> on a dict that keeps insertion order.\<close>

definition dict_set :: "'k \<Rightarrow> 'v \<Rightarrow> ('k \<times> 'v) list \<Rightarrow> ('k \<times> 'v) list" where
  "dict_set k v d =
     (if k \<in> fst ` set d then map (\<lambda>kv. if fst kv = k then (k, v) else kv) d
      else d @ [(k, v)])"

text \<open>\<^verbatim>\<open>shard_ids = shard_ids or list(range(shard_count))\<close>: \<^verbatim>\<open>None\<close> and the empty
  list are both falsy.\<close>

definition requested_ids :: "int list option \<Rightarrow> int \<Rightarrow> int list" where
  "requested_ids shard_ids cnt =
     (case shard_ids of None \<Rightarrow> range_list cnt
      | Some ids \<Rightarrow> if ids = [] then range_list cnt else ids)"

definition create_shards ::
  "string option \<Rightarrow> string \<Rightarrow> int list option \<Rightarrow> int \<Rightarrow> int \<Rightarrow> (int \<times> shard) list" where
  "create_shards tok url shard_ids cnt ints =
     foldl (\<lambda>d i. dict_set i (GatewayShard tok url i cnt ints) d) []
       (requested_ids shard_ids cnt)"

subsection \<open>\<^verbatim>\<open>send\<close>, \<^verbatim>\<open>identify\<close>, \<^verbatim>\<open>resume\<close>, \<^verbatim>\<open>close\<close>\<close>

text \<open>An outgoing command is the envelope \<^verbatim>\<open>{"op": ..., "d": ...}\<close>; writing to an
  open socket appends it to the socket's \<open>outbox\<close>.\<close>

definition send :: "shard \<Rightarrow> GatewayOpcode \<Rightarrow> command_data \<Rightarrow> (exn + unit) \<times> shard" where
  "send s opcode d =
     (case socket s of None \<Rightarrow> (Inl ValueError, s)
      | Some k \<Rightarrow>
          if closed k then (Inl ValueError, s)
          else (Inr (), s\<lparr>socket := Some (k\<lparr>outbox := outbox k @ [(opcode, d)]\<rparr>)\<rparr>))"

definition identify :: "env \<Rightarrow> shard \<Rightarrow> (exn + unit) \<times> shard" where
  "identify E s =
     send s Op_identify
       (IdentifyData (token s) (platform_system E) (shard_id s) (shard_count s) (intents s))"

definition resume :: "shard \<Rightarrow> (exn + unit) \<times> shard" where
  "resume s = send s Op_resume (ResumeData (token s) (session_id s) (sequence s))"

text \<open>\<^verbatim>\<open>close\<close> asks both tasks to cancel and closes an open socket (always with code 0,
  whatever \<open>code\<close> is); a close that times out after one second is passed over, the
  socket counts as closed from the moment the close began.\<close>

definition close :: "shard \<Rightarrow> int \<Rightarrow> shard" where
  "close s code =
     s\<lparr>heartbeat_task := map_option cancel (heartbeat_task s),
       message_task := map_option cancel (message_task s),
       socket := map_option (\<lambda>k. if closed k then k else k\<lparr>closed := True\<rparr>) (socket s),
       state := ''Closed''\<rparr>"

text \<open>
  \<^verbatim>\<open>close\<close> awaited by the message task itself (from \<^verbatim>\<open>messages\<close> and from
  \<^verbatim>\<open>message_handler\<close>, which run nowhere else than in \<^verbatim>\<open>self.message_task\<close>):
  \<^verbatim>\<open>self.message_task.cancel()\<close> is then a request of the running task for its own
  cancellation. With an open socket the next suspension point is the await of
  \<^verbatim>\<open>self.socket.close(code=0)\<close>: the close of the socket has begun,
  \<^verbatim>\<open>CancelledError\<close> is raised there, and \<^verbatim>\<open>self.state = "Closed"\<close> is not reached.
  Without an open socket \<^verbatim>\<open>close\<close> has no suspension point and returns.
\<close>

definition close_by_message_task :: "shard \<Rightarrow> int \<Rightarrow> (exn + unit) \<times> shard" where
  "close_by_message_task s code =
     (if message_task s \<noteq> None \<and> socket_open s
      then (Inl CancelledError,
            s\<lparr>heartbeat_task := map_option cancel (heartbeat_task s),
              message_task := map_option cancel (message_task s),
              socket := map_option (\<lambda>k. k\<lparr>closed := True\<rparr>) (socket s)\<rparr>)
      else (Inr (), close s code))"

subsection \<open>\<^verbatim>\<open>receive\<close>\<close>

definition flush_marker :: "byte list" where
  "flush_marker = [0x00, 0x00, 0xFF, 0xFF]"

text \<open>\<^verbatim>\<open>self._buffer[-4:]\<close>: the last four bytes, all of them when there are fewer.\<close>

definition last4 :: "byte list \<Rightarrow> byte list" where
  "last4 b = drop (length b - 4) b"

text \<open>The handler \<^verbatim>\<open>except MemoryError\<close> around decoding and parsing: it clears the
  buffer and raises \<^verbatim>\<open>GatewayClose\<close>; every other exception goes on to the caller.\<close>

definition parse_failed :: "exn \<Rightarrow> shard \<Rightarrow> (exn + message option) \<times> shard" where
  "parse_failed e s =
     (if e = MemoryError then (Inl GatewayClose, s\<lparr>buffer := []\<rparr>) else (Inl e, s))"

definition loads_and_return :: "env \<Rightarrow> shard \<Rightarrow> string \<Rightarrow> (exn + message option) \<times> shard" where
  "loads_and_return E s decoded =
     (case json_loads E decoded of
        Inl e \<Rightarrow> parse_failed e s
      | Inr parsed \<Rightarrow>
          (case opcode_of E (i_op parsed) of
             None \<Rightarrow> (Inl ValueError, s\<lparr>buffer := []\<rparr>)
           | Some oc \<Rightarrow>
               (Inr (Some (oc, i_t parsed, i_s parsed, i_d parsed)), s\<lparr>buffer := []\<rparr>)))"

text \<open>The \<^verbatim>\<open>while True\<close> of \<^verbatim>\<open>receive\<close> returns or raises on every path of its first
  pass, so one call reads one frame: the argument \<open>r\<close>.\<close>

definition receive :: "env \<Rightarrow> shard \<Rightarrow> read_outcome \<Rightarrow> (exn + message option) \<times> shard" where
  "receive E s r =
     (case socket s of None \<Rightarrow> (Inl ValueError, s)
      | Some k \<Rightarrow>
          if closed k then (Inl ValueError, s)
          else (case r of
              ReadGatewayException b \<Rightarrow> (Inl (GatewayException b), s)
            | ReadCancelled \<Rightarrow> (Inl CancelledError, s)
            | ReadException \<Rightarrow> (Inr None, s)
            | Received m \<Rightarrow>
                if msg_type m = ERROR then (Inr None, s)
                else if msg_type m = CLOSING then (Inl GatewayClose, s)
                else if msg_type m = CLOSE then
                  (case msg_data m of
                     Code c \<Rightarrow>
                       (case all_exceptions E c of
                          None \<Rightarrow> (Inl KeyError, s)
                        | Some e \<Rightarrow> (Inl e, s))
                   | _ \<Rightarrow> (Inl KeyError, s))
                else if msg_type m = CLOSED then (Inl (GatewayException (base_reconnect E)), s)
                else (case msg_data m of
                    Bytes data_bytes \<Rightarrow>
                      (let s1 = s\<lparr>buffer := buffer s @ data_bytes\<rparr> in
                       if last4 (buffer s1) \<noteq> flush_marker then (Inr None, s1)
                       else (case zlib_decompress E (zlib s1) (buffer s1) of
                           None \<Rightarrow> (Inl GatewayClose, s1\<lparr>zlib := zlib s1 @ buffer s1\<rparr>)
                         | Some decompressed \<Rightarrow>
                             (let s2 = s1\<lparr>zlib := zlib s1 @ buffer s1, buffer := []\<rparr> in
                              case bytes_decode E decompressed of
                                Inl e \<Rightarrow> parse_failed e s2
                              | Inr decoded \<Rightarrow> loads_and_return E s2 decoded)))
                  | Str decoded \<Rightarrow> loads_and_return E (s\<lparr>buffer := []\<rparr>) decoded
                  | _ \<Rightarrow> parse_failed TypeError (s\<lparr>buffer := []\<rparr>))))"

subsection \<open>One message in \<^verbatim>\<open>message_handler\<close>\<close>

text \<open>One pass through the body of the \<^verbatim>\<open>async for\<close> of \<^verbatim>\<open>message_handler\<close>: go on
  to the next message, or return. In the branch for a session that cannot be resumed
  the \<^verbatim>\<open>CancelledError\<close> that \<^verbatim>\<open>close\<close> brings on the message task is the one that
  \<^verbatim>\<open>except asyncio.CancelledError: pass\<close> catches, so the branch goes on to create the
  connect task. (A message is handled right after it was read from the socket, which
  was open then.)\<close>

datatype handled = Next shard | Return shard

definition handle_message :: "shard \<Rightarrow> message \<Rightarrow> handled" where
  "handle_message s m =
     (case m of (opcode, event_name, sq, msg) \<Rightarrow>
        (case opcode of
           Op_heartbeat_ack \<Rightarrow> Next (s\<lparr>heartbeat_received := True\<rparr>)
         | Op_dispatch \<Rightarrow>
             (let s1 = (if event_name = Some ''READY'' \<or> event_name = Some ''RESUMED''
                        then s\<lparr>ready_received := True\<rparr> else s);
                  s2 = s1\<lparr>sequence := sq\<rparr>
              in Next (spawn (DispatchCoro event_name msg sq) s2))
         | Op_reconnect \<Rightarrow> Return (spawn ReconnectCoro (s\<lparr>ready_received := True\<rparr>))
         | Op_invalidate_session \<Rightarrow>
             (let s1 = s\<lparr>ready_received := True\<rparr>
              in if msg = JBool True then Return (spawn ReconnectCoro s1)
                 else Return (spawn (ConnectCoro msg) (snd (close_by_message_task s1 1000))))
         | _ \<Rightarrow> Next s))"

subsection \<open>\<^verbatim>\<open>_connect\<close>, \<^verbatim>\<open>connect\<close>, \<^verbatim>\<open>reconnect\<close>\<close>

text \<open>
  What the outside world does during one pass through \<^verbatim>\<open>_connect\<close>: whether
  \<^verbatim>\<open>ws_connect\<close> succeeds, what the wait for HELLO gets (a timeout of
  \<^verbatim>\<open>asyncio.wait_for\<close> or one read), whether the transport has closed by itself when
  a pass is given up, and which messages the message task, started in that pass,
  handles while \<^verbatim>\<open>_connect\<close> waits for \<^verbatim>\<open>ready_received\<close>. Only \<^verbatim>\<open>message_handler\<close>
  sets that event, so the wait ends when one of these messages has set it, and times
  out after 60 seconds when none has. The two semaphores are taken to be free here, so
  that no other task runs between the start of the message task and the send; the
  identify semaphore has a model of its own below.
\<close>

datatype hello_outcome = HelloTimeout | HelloRead read_outcome

record attempt =
  ws_connect_ok :: bool
  hello :: hello_outcome
  transport_closed :: bool
  during_wait :: "message list"

text \<open>\<^verbatim>\<open>data["heartbeat_interval"]\<close> on the payload of HELLO.\<close>

definition subscript :: "json \<Rightarrow> string \<Rightarrow> exn + json" where
  "subscript d k =
     (case d of
        JDict kv \<Rightarrow> (case map_of kv k of None \<Rightarrow> Inl KeyError | Some v \<Rightarrow> Inr v)
      | _ \<Rightarrow> Inl TypeError)"

text \<open>The head of \<^verbatim>\<open>_connect\<close>, up to the opening of the socket: the shard, the
  \<^verbatim>\<open>reconnect\<close> flag as it is from there on, and the url.\<close>

definition prepare :: "shard \<Rightarrow> string option \<Rightarrow> bool \<Rightarrow> int \<Rightarrow> shard \<times> bool \<times> string" where
  "prepare s url rc sleep_fifths =
     (let s1 = s\<lparr>connecting := True, buffer := [], zlib := []\<rparr>;
          rc' = (rc \<or> socket_open s1);
          s2 = (if socket_open s1 then close s1 0 else s1);
          s3 = (if \<not> rc' then s2\<lparr>sequence := None\<rparr> else s2);
          url' = (case url of None \<Rightarrow> ws_url s3 | Some u \<Rightarrow> if u = [] then ws_url s3 else u);
          s4 = (if sleep_fifths \<noteq> 0 then s3\<lparr>state := ''Sleeping before connecting''\<rparr> else s3)
      in (s4\<lparr>state := (if rc' then ''Reconnecting'' else ''Connecting'')\<rparr>, rc', url'))"

datatype pass_result = Retry shard | Finished "exn + unit" shard

definition gave_up :: "shard \<Rightarrow> attempt \<Rightarrow> shard" where
  "gave_up s a =
     (if transport_closed a then s\<lparr>socket := map_option (\<lambda>k. k\<lparr>closed := True\<rparr>) (socket s)\<rparr>
      else s)"

text \<open>One pass from the opening of the socket to the send: open the socket, wait for
  HELLO, start the heartbeat and the message task, send RESUME or IDENTIFY.\<close>

datatype send_result = Sent shard | NotSent pass_result

definition open_and_send :: "env \<Rightarrow> shard \<Rightarrow> bool \<Rightarrow> attempt \<Rightarrow> send_result" where
  "open_and_send E s rc a =
     (if \<not> ws_connect_ok a then NotSent (Retry s)
      else
        (let s6 = s\<lparr>socket := Some \<lparr>closed = False, outbox = []\<rparr>, state := ''Waiting for HELLO''\<rparr>
         in case hello a of
           HelloTimeout \<Rightarrow> NotSent (Retry (gave_up s6 a))
         | HelloRead r \<Rightarrow>
             (case receive E s6 r of
                (Inl e, s7) \<Rightarrow>
                  if is_Exception e then NotSent (Retry (gave_up s7 a))
                  else NotSent (Finished (Inl e) s7)
              | (Inr None, s7) \<Rightarrow> NotSent (Finished (Inr ()) s7)
              | (Inr (Some got), s7) \<Rightarrow>
                  (case subscript (snd (snd (snd got))) ''heartbeat_interval'' of
                     Inl e \<Rightarrow> NotSent (Finished (Inl e) s7)
                   | Inr heartbeat_interval \<Rightarrow>
                       (let s8 = s7\<lparr>heartbeat_task :=
                                      Some (create_task (HeartbeatCoro heartbeat_interval (\<not> rc))),
                                    ready_received := False,
                                    message_task := Some (create_task MessageHandlerCoro),
                                    state := ''Pending send IDENTIFY/RESUME''\<rparr>
                        in case (if rc then resume s8 else identify E s8) of
                          (Inl e, s9) \<Rightarrow> NotSent (Finished (Inl e) s9)
                        | (Inr u, s9) \<Rightarrow> Sent s9)))))"

text \<open>The message task while \<^verbatim>\<open>_connect\<close> waits: it handles the messages in turn until
  one of them has set \<^verbatim>\<open>ready_received\<close> or has made \<^verbatim>\<open>message_handler\<close> return.\<close>

fun message_task_until_ready :: "shard \<Rightarrow> message list \<Rightarrow> shard" where
  "message_task_until_ready s [] = s"
| "message_task_until_ready s (m # ms) =
     (if ready_received s then s
      else (case handle_message s m of
          Next s' \<Rightarrow> message_task_until_ready s' ms
        | Return s' \<Rightarrow> s'))"

text \<open>\<^verbatim>\<open>await asyncio.wait_for(self.ready_received.wait(), timeout=60.0)\<close> and what
  follows it.\<close>

definition await_ready :: "shard \<Rightarrow> attempt \<Rightarrow> pass_result" where
  "await_ready s a =
     (let s10 = message_task_until_ready (s\<lparr>state := ''Waiting for READY/RESUMED''\<rparr>)
                  (during_wait a)
      in if ready_received s10
         then Finished (Inr ()) (s10\<lparr>state := ''Ready'', connecting := False\<rparr>)
         else Retry (gave_up (s10\<lparr>message_task := map_option cancel (message_task s10)\<rparr>) a))"

definition handshake :: "env \<Rightarrow> shard \<Rightarrow> bool \<Rightarrow> attempt \<Rightarrow> pass_result" where
  "handshake E s rc a =
     (case open_and_send E s rc a of
        NotSent r \<Rightarrow> r
      | Sent s9 \<Rightarrow> await_ready s9 a)"

text \<open>One pass of \<^verbatim>\<open>_connect\<close> from its entry to the send.\<close>

definition pass_to_send ::
  "env \<Rightarrow> shard \<Rightarrow> string option \<Rightarrow> bool \<Rightarrow> int \<Rightarrow> attempt \<Rightarrow> send_result" where
  "pass_to_send E s url rc sleep_fifths a =
     (case prepare s url rc sleep_fifths of (s5, rc', url') \<Rightarrow> open_and_send E s5 rc' a)"

text \<open>\<^verbatim>\<open>_connect\<close> calls itself again after a failed pass; each pass takes one
  \<open>attempt\<close> of the script. \<open>sleep_fifths\<close> is \<^verbatim>\<open>sleep_time\<close> in fifths of a second.\<close>

fun connect_inner ::
  "env \<Rightarrow> shard \<Rightarrow> string option \<Rightarrow> bool \<Rightarrow> nat \<Rightarrow> int \<Rightarrow> attempt list
     \<Rightarrow> ((exn + unit) \<times> shard \<times> attempt list) option" where
  "connect_inner E s url rc n sleep_fifths [] = None"
| "connect_inner E s url rc n sleep_fifths (a # rest) =
     (case prepare s url rc sleep_fifths of
        (s5, rc', url') \<Rightarrow>
          (case handshake E s5 rc' a of
             Retry s' \<Rightarrow> connect_inner E s' (Some url') rc' (Suc n) 0 rest
           | Finished r s' \<Rightarrow> Some (r, s', rest)))"

definition shard_connect ::
  "env \<Rightarrow> shard \<Rightarrow> string option \<Rightarrow> bool \<Rightarrow> bool \<Rightarrow> attempt list
     \<Rightarrow> ((exn + unit) \<times> shard \<times> attempt list) option" where
  "shard_connect E s url rc sleep script =
     connect_inner E s url rc 1 (if sleep then shard_id s else 0) script"

definition reconnect ::
  "env \<Rightarrow> shard \<Rightarrow> attempt list \<Rightarrow> ((exn + unit) \<times> shard \<times> attempt list) option" where
  "reconnect E s script =
     shard_connect E (close (s\<lparr>connecting := True\<rparr>) 0) (Some (resume_url s)) True False script"

text \<open>
  \<^verbatim>\<open>await self.reconnect()\<close> in the message task. When the close has left a request
  for the cancellation of the running task, \<^verbatim>\<open>CancelledError\<close> is raised in the close
  itself or, after a close with no suspension point, at \<^verbatim>\<open>ws_connect\<close> in the first pass
  of \<^verbatim>\<open>_connect\<close>; no handler of \<^verbatim>\<open>_connect\<close> catches it (they are
  \<^verbatim>\<open>except Exception\<close>). Without a message task to cancel it is \<^verbatim>\<open>reconnect\<close>.
\<close>

definition reconnect_in_message_task ::
  "env \<Rightarrow> shard \<Rightarrow> attempt list \<Rightarrow> ((exn + unit) \<times> shard \<times> attempt list) option" where
  "reconnect_in_message_task E s script =
     (case close_by_message_task (s\<lparr>connecting := True\<rparr>) 0 of
        (Inl e, s1) \<Rightarrow> Some (Inl e, s1, script)
      | (Inr u, s1) \<Rightarrow>
          if message_task s1 = None
          then shard_connect E s1 (Some (resume_url s)) True False script
          else Some (Inl CancelledError, fst (prepare s1 (Some (resume_url s)) True 0), script))"

subsection \<open>\<^verbatim>\<open>messages\<close> and \<^verbatim>\<open>message_handler\<close>\<close>

text \<open>One pass through the \<^verbatim>\<open>while True\<close> of the generator \<^verbatim>\<open>messages\<close>: it yields a
  message, goes round again (\<^verbatim>\<open>continue\<close>), returns, or raises. The generator runs
  in the message task.\<close>

datatype gen_step = Yield message | Continue | Stop | GenRaise exn

definition messages_step ::
  "env \<Rightarrow> shard \<Rightarrow> read_outcome \<Rightarrow> attempt list \<Rightarrow> (gen_step \<times> shard \<times> attempt list) option" where
  "messages_step E s r script =
     (case receive E s r of
        (Inl e, s1) \<Rightarrow>
          if e = GatewayClose then
            (case reconnect_in_message_task E s1 script of
               None \<Rightarrow> None
             | Some (Inl e', s2, script') \<Rightarrow> Some (GenRaise e', s2, script')
             | Some (Inr u, s2, script') \<Rightarrow> Some (Continue, s2, script'))
          else (case e of
              GatewayException b \<Rightarrow>
                if \<not> b then Some (GenRaise e, s1, script)
                else Some (Stop, spawn ReconnectCoro s1, script)
            | _ \<Rightarrow>
                if is_Exception e then Some (Stop, s1, script)
                else Some (GenRaise e, s1, script))
      | (Inr None, s1) \<Rightarrow> Some (Stop, s1, script)
      | (Inr (Some d), s1) \<Rightarrow> Some (Yield d, s1, script))"

text \<open>The two loops together: every read of the socket is one element of \<open>reads\<close>.
  The result is what \<^verbatim>\<open>message_handler\<close> returned or raised, and the reads it left
  unread.\<close>

fun message_handler ::
  "env \<Rightarrow> shard \<Rightarrow> read_outcome list \<Rightarrow> attempt list
     \<Rightarrow> ((exn + unit) \<times> shard \<times> read_outcome list \<times> attempt list) option" where
  "message_handler E s [] script = None"
| "message_handler E s (r # reads) script =
     (case messages_step E s r script of
        None \<Rightarrow> None
      | Some (g, s1, script1) \<Rightarrow>
          (case g of
             Continue \<Rightarrow> message_handler E s1 reads script1
           | Stop \<Rightarrow> Some (Inr (), s1, reads, script1)
           | GenRaise e \<Rightarrow> Some (Inl e, s1, reads, script1)
           | Yield d \<Rightarrow>
               (case handle_message s1 d of
                  Next s2 \<Rightarrow> message_handler E s2 reads script1
                | Return s2 \<Rightarrow> Some (Inr (), s2, reads, script1))))"

subsection \<open>\<^verbatim>\<open>heartbeat\<close>\<close>

text \<open>
  \<^verbatim>\<open>asyncio.sleep\<close> ends or is cancelled. \<^verbatim>\<open>asyncio.wait_for(self.heartbeat_received.wait(),
  timeout=10)\<close> returns at once when the event is already set; otherwise the event
  gets set in time, or the ten seconds pass and \<^verbatim>\<open>wait_for\<close> raises
  \<^verbatim>\<open>asyncio.TimeoutError\<close>, or the heartbeat task is cancelled while it waits and
  \<^verbatim>\<open>asyncio.CancelledError\<close> is raised.
\<close>

datatype sleep_outcome = Slept | SleepCancelled

datatype ack_outcome = Acked | AckTimeout | WaitCancelled

datatype beat_result = BeatBreak | BeatReturn | BeatRaise exn

text \<open>The loop \<^verbatim>\<open>for beat_attempt in range(1_000)\<close>, from \<open>beat_attempt\<close> on.\<close>

fun beat_loop ::
  "shard \<Rightarrow> nat \<Rightarrow> ack_outcome list \<Rightarrow> (beat_result \<times> shard \<times> ack_outcome list) option" where
  "beat_loop s beat_attempt acks =
     (if 1000 \<le> beat_attempt then Some (BeatBreak, s, acks)
      else (case send s Op_heartbeat (HeartbeatData (sequence s)) of
          (Inl e, s1) \<Rightarrow>
            if e = ValueError
            then Some (BeatReturn, spawn (ConnectCoro (JBool True)) s1, acks)
            else Some (BeatRaise e, s1, acks)
        | (Inr u, s1) \<Rightarrow>
            if heartbeat_received s1 then Some (BeatBreak, s1, acks)
            else (case acks of
                [] \<Rightarrow> None
              | a # acks' \<Rightarrow>
                  (case a of
                     Acked \<Rightarrow> Some (BeatBreak, s1\<lparr>heartbeat_received := True\<rparr>, acks')
                   | AckTimeout \<Rightarrow> Some (BeatRaise TimeoutError, s1, acks')
                   | WaitCancelled \<Rightarrow>
                       if beat_attempt \<le> 5 then beat_loop s1 (Suc beat_attempt) acks'
                       else Some (BeatReturn, spawn (ConnectCoro (JBool True)) s1, acks')))))"

text \<open>The \<^verbatim>\<open>while True\<close> of \<^verbatim>\<open>heartbeat\<close>: one sleep and one \<^verbatim>\<open>for\<close> loop per cycle.\<close>

fun heartbeat_cycles ::
  "shard \<Rightarrow> sleep_outcome list \<Rightarrow> ack_outcome list \<Rightarrow> ((exn + unit) \<times> shard) option" where
  "heartbeat_cycles s [] acks = None"
| "heartbeat_cycles s (sl # sleeps) acks =
     (case sl of
        SleepCancelled \<Rightarrow> Some (Inr (), s)
      | Slept \<Rightarrow>
          (case beat_loop s 0 acks of
             None \<Rightarrow> None
           | Some (BeatBreak, s', acks') \<Rightarrow> heartbeat_cycles s' sleeps acks'
           | Some (BeatReturn, s', acks') \<Rightarrow> Some (Inr (), s')
           | Some (BeatRaise e, s', acks') \<Rightarrow> Some (Inl e, s')))"

text \<open>The interval is in milliseconds; the jitter changes only the length of the
  first sleep.\<close>

declare beat_loop.simps [simp del]

definition heartbeat ::
  "shard \<Rightarrow> int \<Rightarrow> bool \<Rightarrow> sleep_outcome list \<Rightarrow> ack_outcome list
     \<Rightarrow> ((exn + unit) \<times> shard) option" where
  "heartbeat s heartbeat_interval jitter sleeps acks =
     (if heartbeat_interval \<le> 0 then Some (Inl ValueError, s)
      else heartbeat_cycles s sleeps acks)"

subsection \<open>\<^verbatim>\<open>chunk_guild\<close>\<close>

definition digit_char :: "nat \<Rightarrow> char" where
  "digit_char d = char_of (48 + d)"

function str_nat :: "nat \<Rightarrow> string" where
  "str_nat n = (if n < 10 then [digit_char n] else str_nat (n div 10) @ [digit_char (n mod 10)])"
  by pat_completeness auto
termination
  by (relation "measure id") auto

declare str_nat.simps [simp del]

text \<open>\<^verbatim>\<open>str(i)\<close> of an int.\<close>

definition str_int :: "int \<Rightarrow> string" where
  "str_int i = (if i < 0 then CHR ''-'' # str_nat (nat (- i)) else str_nat (nat i))"

text \<open>\<^verbatim>\<open>if nonce:\<close> holds for a string that is not empty.\<close>

definition truthy_nonce :: "string option \<Rightarrow> bool" where
  "truthy_nonce nonce = (case nonce of None \<Rightarrow> False | Some n \<Rightarrow> n \<noteq> [])"

text \<open>\<^verbatim>\<open>asyncio.Event()\<close>: a new, unset event at the end of the store.\<close>

definition new_event :: "shard \<Rightarrow> nat \<times> shard" where
  "new_event s = (length (events s), s\<lparr>events := events s @ [False]\<rparr>)"

definition register_chunk :: "shard \<Rightarrow> string \<Rightarrow> nat \<times> shard" where
  "register_chunk s n =
     (let s1 = s\<lparr>chunk_counter := dict_set n 0 (chunk_counter s)\<rparr>;
          (ev, s2) = new_event s1;
          s3 = s2\<lparr>chunk_event := dict_set n ev (chunk_event s2)\<rparr>
      in (ev, s3\<lparr>chunk_groups := dict_set n [] (chunk_groups s3)\<rparr>))"

definition chunk_guild ::
  "shard \<Rightarrow> int \<Rightarrow> string \<Rightarrow> int \<Rightarrow> int list option \<Rightarrow> string option
     \<Rightarrow> (exn + nat option) \<times> shard" where
  "chunk_guild s guild_id query limit user_ids nonce =
     (let q = (case user_ids of None \<Rightarrow> Some query | Some ids \<Rightarrow> None);
          u = map_option (map str_int) user_ids;
          (event, data_nonce, s1) =
            (case nonce of
               None \<Rightarrow> (None, None, s)
             | Some n \<Rightarrow>
                 if truthy_nonce nonce
                 then (case register_chunk s n of (ev, s') \<Rightarrow> (Some ev, Some n, s'))
                 else (None, None, s))
      in case send s1 Op_request_members
                (RequestMembers (str_int guild_id) limit q u data_nonce) of
           (Inl e, s2) \<Rightarrow> (Inl e, s2)
         | (Inr un, s2) \<Rightarrow> (Inr event, s2))"

subsection \<open>The identify semaphore\<close>

text \<open>
  \<^verbatim>\<open>GatewayConnection.connect\<close> makes one \<^verbatim>\<open>LoggingSemaphore(max_concurrency)\<close> and gives
  it to every shard; \<^verbatim>\<open>_connect\<close> sends IDENTIFY or RESUME inside
  \<^verbatim>\<open>async with self.identify_semaphore.log(...)\<close>. The semaphore is its counter. A task
  of a shard is outside the block, waiting in \<^verbatim>\<open>__aenter__\<close>, or inside the block
  holding a permit; \<^verbatim>\<open>__aexit__\<close> gives the permit back, whether the send returned or
  raised. The tasks take their steps in any order.
\<close>

datatype phase = Outside | Waiting | Holding

record permits =
  sem_value :: nat
  phases :: "phase list"

datatype sem_action = Enter nat | Acquire nat | Exit nat

text \<open>\<^verbatim>\<open>LoggingSemaphore(max_concurrency)\<close> and one task per shard.\<close>

definition sem_init :: "nat \<Rightarrow> nat \<Rightarrow> permits" where
  "sem_init max_concurrency shards = \<lparr>sem_value = max_concurrency, phases = replicate shards Outside\<rparr>"

text \<open>A step that the task cannot take (no such task, wrong phase, no permit left)
  leaves everything as it is.\<close>

fun sem_step :: "permits \<Rightarrow> sem_action \<Rightarrow> permits" where
  "sem_step p (Enter i) =
     (if i < length (phases p) \<and> phases p ! i = Outside
      then p\<lparr>phases := (phases p)[i := Waiting]\<rparr> else p)"
| "sem_step p (Acquire i) =
     (if i < length (phases p) \<and> phases p ! i = Waiting \<and> 0 < sem_value p
      then p\<lparr>sem_value := sem_value p - 1, phases := (phases p)[i := Holding]\<rparr> else p)"
| "sem_step p (Exit i) =
     (if i < length (phases p) \<and> phases p ! i = Holding
      then p\<lparr>sem_value := sem_value p + 1, phases := (phases p)[i := Outside]\<rparr> else p)"

definition sem_run :: "permits \<Rightarrow> sem_action list \<Rightarrow> permits" where
  "sem_run p acts = foldl sem_step p acts"

text \<open>The number of shards between acquiring the permit and leaving the block.\<close>

definition in_window :: "permits \<Rightarrow> nat" where
  "in_window p = length (filter (\<lambda>ph. ph = Holding) (phases p))"

subsection \<open>Stand-ins for the library, for runs on concrete inputs\<close>

text \<open>The numbering of the gateway opcodes as the remote service documents it; the
  enum itself is defined outside gateway.py.\<close>

definition discord_opcode :: "int \<Rightarrow> GatewayOpcode option" where
  "discord_opcode n =
     (if n = 0 then Some Op_dispatch
      else if n = 1 then Some Op_heartbeat
      else if n = 2 then Some Op_identify
      else if n = 3 then Some Op_presence
      else if n = 6 then Some Op_resume
      else if n = 7 then Some Op_reconnect
      else if n = 8 then Some Op_request_members
      else if n = 9 then Some Op_invalidate_session
      else if n = 10 then Some Op_hello
      else if n = 11 then Some Op_heartbeat_ack
      else None)"

text \<open>A library whose decompressor answers \<open>z\<close> and whose parser answers \<open>j\<close>,
  whatever they are given.\<close>

definition stub_env :: "byte list option \<Rightarrow> exn + incoming \<Rightarrow> env" where
  "stub_env z j =
     \<lparr>zlib_decompress = (\<lambda>fed chunk. z),
      bytes_decode = (\<lambda>b. Inr []),
      json_loads = (\<lambda>decoded. j),
      opcode_of = discord_opcode,
      all_exceptions = (\<lambda>c. None),
      base_reconnect = False,
      platform_system = ''Linux''\<rparr>"

text \<open>A shard with an open socket and a session: id \<^verbatim>\<open>"abc"\<close>, sequence 5.\<close>

definition example_shard :: shard where
  "example_shard =
     (GatewayShard (Some ''token'') ''wss://gateway'' 0 1 0)
       \<lparr>socket := Some \<lparr>closed = False, outbox = []\<rparr>,
        sequence := Some 5, session_id := Some ''abc''\<rparr>"

definition binary_frame :: "byte list \<Rightarrow> read_outcome" where
  "binary_frame b = Received \<lparr>msg_type = BINARY, msg_data = Bytes b\<rparr>"

definition text_frame :: "string \<Rightarrow> read_outcome" where
  "text_frame txt = Received \<lparr>msg_type = TEXT, msg_data = Str txt\<rparr>"

definition error_frame :: read_outcome where
  "error_frame = Received \<lparr>msg_type = ERROR, msg_data = NoData\<rparr>"

text \<open>The same shard when it is Ready, with its heartbeat task and message task.\<close>

definition ready_shard :: shard where
  "ready_shard =
     example_shard
       \<lparr>ready_received := True, state := ''Ready'',
        heartbeat_task := Some (create_task (HeartbeatCoro (JInt 41250) True)),
        message_task := Some (create_task MessageHandlerCoro)\<rparr>"

text \<open>A library whose parser answers the HELLO message with a heartbeat interval of
  41250 ms, and a pass through \<^verbatim>\<open>_connect\<close> in which everything succeeds: the message
  task handles a READY dispatch with \<^verbatim>\<open>s = 1\<close>.\<close>

definition hello_env :: env where
  "hello_env =
     stub_env None
       (Inr \<lparr>i_op = 10, i_t = None, i_s = None,
             i_d = JDict [(''heartbeat_interval'', JInt 41250)]\<rparr>)"

definition good_attempt :: attempt where
  "good_attempt =
     \<lparr>ws_connect_ok = True, hello = HelloRead (text_frame ''{}''),
      transport_closed = False,
      during_wait = [(Op_dispatch, Some ''READY'', Some 1,
                      JDict [(''session_id'', JStr ''xyz'')])]\<rparr>"

section \<open>Properties\<close>

subsection \<open>A shard that has not started counts as running\<close>

lemma running_unstarted:
  "heartbeat_task s = None \<or> socket s = None \<or> message_task s = None \<Longrightarrow> running s"
  by (auto simp: running_def split: option.splits)

text \<open>
  C9. \<^verbatim>\<open>running\<close> is true of a shard whose heartbeat task, socket or message task is
  still \<^verbatim>\<open>None\<close>, and while \<^verbatim>\<open>self.shards\<close> holds such a shard, \<^verbatim>\<open>wait\<close> does not
  return at that look: it sleeps a second and looks again.
\<close>

theorem running_before_lifecycle:
  assumes "(i, s) \<in> set shards"
    and "heartbeat_task s = None \<or> socket s = None \<or> message_task s = None"
  shows "running s \<and> wait (shards # later) = map_option Suc (wait later)"
proof -
  have r: "running s" using assms(2) by (rule running_unstarted)
  have "list_ex (\<lambda>kv. running (snd kv)) shards"
    unfolding list_ex_iff using assms(1) r by force
  then show ?thesis using r by simp
qed

theorem running_before_lifecycle_witness:
  "running (GatewayShard None ''wss'' 0 1 0)
   \<and> wait [[(0, GatewayShard None ''wss'' 0 1 0)], [(0, GatewayShard None ''wss'' 0 1 0)]] = None"
  using running_before_lifecycle [of 0 "GatewayShard None ''wss'' 0 1 0"
      "[(0, GatewayShard None ''wss'' 0 1 0)]" "[[(0, GatewayShard None ''wss'' 0 1 0)]]"]
    running_before_lifecycle [of 0 "GatewayShard None ''wss'' 0 1 0"
      "[(0, GatewayShard None ''wss'' 0 1 0)]" "[]"]
  by (simp add: GatewayShard_def)

subsection \<open>Which shards \<^verbatim>\<open>GatewayConnection.connect\<close> creates\<close>

lemma foldl_dict_set_fresh:
  "distinct xs \<Longrightarrow> set xs \<inter> fst ` set acc = {} \<Longrightarrow>
   foldl (\<lambda>d i. dict_set i (f i) d) acc xs = acc @ map (\<lambda>i. (i, f i)) xs"
proof (induction xs arbitrary: acc)
  case Nil
  then show ?case by simp
next
  case (Cons x xs)
  have fresh: "x \<notin> fst ` set acc" using Cons.prems(2) by auto
  then have step: "dict_set x (f x) acc = acc @ [(x, f x)]"
    by (simp add: dict_set_def)
  have "set xs \<inter> fst ` set (acc @ [(x, f x)]) = {}"
    using Cons.prems by auto
  then show ?case using Cons.IH [of "acc @ [(x, f x)]"] Cons.prems(1) step by simp
qed

lemma distinct_range_list: "distinct (range_list n)"
  by (simp add: range_list_def distinct_map inj_on_def)

text \<open>
  C10. An empty \<^verbatim>\<open>shard_ids\<close> list gives the same shards as \<^verbatim>\<open>None\<close>: one
  \<^verbatim>\<open>GatewayShard\<close> for every index of \<^verbatim>\<open>range(shard_count)\<close>, in that order.
\<close>

theorem empty_shard_ids_as_None:
  "create_shards tok url (Some []) cnt ints = create_shards tok url None cnt ints
   \<and> create_shards tok url None cnt ints =
       map (\<lambda>i. (i, GatewayShard tok url i cnt ints)) (range_list cnt)"
  using foldl_dict_set_fresh [OF distinct_range_list [of cnt], where acc = "[]"
      and f = "\<lambda>i. GatewayShard tok url i cnt ints"]
  by (simp add: create_shards_def requested_ids_def)

theorem empty_shard_ids_as_None_witness:
  "map fst (create_shards None ''wss'' (Some []) 3 0) = [0, 1, 2]"
  using empty_shard_ids_as_None [of None "''wss''" 3 0]
  by (simp add: range_list_def comp_def upt_rec)

subsection \<open>Binary frames and the flush marker\<close>

lemma receive_partial:
  "socket_open s \<Longrightarrow> msg_type m = BINARY \<Longrightarrow> msg_data m = Bytes b \<Longrightarrow>
   last4 (buffer s @ b) \<noteq> flush_marker \<Longrightarrow>
   receive E s (Received m) = (Inr None, s\<lparr>buffer := buffer s @ b\<rparr>)"
  by (auto simp: receive_def socket_open_def split: option.splits)

lemma example_open: "socket_open example_shard"
  by (simp add: example_shard_def socket_open_def)

lemma example_buffer: "buffer example_shard = []"
  by (simp add: example_shard_def GatewayShard_def)

text \<open>
  C4. Whatever the earlier frames left in the buffer, a binary frame after which the
  buffer does not end in \<^verbatim>\<open>00 00 FF FF\<close> is only appended: \<^verbatim>\<open>receive\<close> returns \<^verbatim>\<open>None\<close>
  with no call of the decompressor or the parser (the result is the same for every
  library \<open>E\<close>, and the decompression object has been fed nothing). So a binary
  frame on which \<^verbatim>\<open>receive\<close> gives a message has completed a buffer that ends in the
  marker.
\<close>

theorem message_only_after_flush_marker:
  assumes "socket_open s" and "msg_type m = BINARY" and "msg_data m = Bytes b"
  shows "(last4 (buffer s @ b) \<noteq> flush_marker \<longrightarrow>
            receive E s (Received m) = (Inr None, s\<lparr>buffer := buffer s @ b\<rparr>))
       \<and> (\<forall>msg s'. receive E s (Received m) = (Inr (Some msg), s') \<longrightarrow>
            last4 (buffer s @ b) = flush_marker)"
proof (intro conjI impI allI)
  assume "last4 (buffer s @ b) \<noteq> flush_marker"
  then show "receive E s (Received m) = (Inr None, s\<lparr>buffer := buffer s @ b\<rparr>)"
    using assms receive_partial by blast
next
  fix msg s'
  assume emitted: "receive E s (Received m) = (Inr (Some msg), s')"
  show "last4 (buffer s @ b) = flush_marker"
  proof (rule ccontr)
    assume "last4 (buffer s @ b) \<noteq> flush_marker"
    then have "receive E s (Received m) = (Inr None, s\<lparr>buffer := buffer s @ b\<rparr>)"
      using assms receive_partial by blast
    with emitted show False by simp
  qed
qed

theorem message_only_after_flush_marker_witness:
  "receive (stub_env None (Inl JSONDecodeError)) example_shard (binary_frame [0x78, 0x9C])
     = (Inr None, example_shard\<lparr>buffer := [0x78, 0x9C]\<rparr>)"
  using message_only_after_flush_marker [OF example_open,
      of "\<lparr>msg_type = BINARY, msg_data = Bytes [0x78, 0x9C]\<rparr>" "[0x78, 0x9C]"
         "stub_env None (Inl JSONDecodeError)"]
  by (simp add: example_buffer binary_frame_def last4_def flush_marker_def)

lemma messages_step_partial:
  "receive E s r = (Inr None, s') \<Longrightarrow> messages_step E s r script = Some (Stop, s', script)"
  by (simp add: messages_step_def)

text \<open>
  C8. A binary frame that does not complete a message makes \<^verbatim>\<open>receive\<close> return
  \<^verbatim>\<open>None\<close> after that one read; the generator \<^verbatim>\<open>messages\<close> returns, and
  \<^verbatim>\<open>message_handler\<close> ends normally with the later frames unread.
\<close>

theorem partial_frame_ends_loop:
  assumes "socket_open s" and "msg_type m = BINARY" and "msg_data m = Bytes b"
    and "last4 (buffer s @ b) \<noteq> flush_marker"
  shows "receive E s (Received m) = (Inr None, s\<lparr>buffer := buffer s @ b\<rparr>)
       \<and> messages_step E s (Received m) script
            = Some (Stop, s\<lparr>buffer := buffer s @ b\<rparr>, script)
       \<and> message_handler E s (Received m # reads) script
            = Some (Inr (), s\<lparr>buffer := buffer s @ b\<rparr>, reads, script)"
proof -
  have r: "receive E s (Received m) = (Inr None, s\<lparr>buffer := buffer s @ b\<rparr>)"
    using assms by (rule receive_partial)
  then have "messages_step E s (Received m) script
      = Some (Stop, s\<lparr>buffer := buffer s @ b\<rparr>, script)"
    by (rule messages_step_partial)
  then show ?thesis using r by simp
qed

theorem partial_frame_ends_loop_witness:
  "message_handler (stub_env None (Inl JSONDecodeError)) example_shard
      [binary_frame [0x78, 0x9C], binary_frame [0x00, 0x00, 0xFF, 0xFF]] []
     = Some (Inr (), example_shard\<lparr>buffer := [0x78, 0x9C]\<rparr>,
         [binary_frame [0x00, 0x00, 0xFF, 0xFF]], [])"
  using partial_frame_ends_loop [OF example_open,
      of "\<lparr>msg_type = BINARY, msg_data = Bytes [0x78, 0x9C]\<rparr>" "[0x78, 0x9C]"
         "stub_env None (Inl JSONDecodeError)" "[]" "[binary_frame [0x00, 0x00, 0xFF, 0xFF]]"]
  by (simp add: example_buffer binary_frame_def last4_def flush_marker_def)

subsection \<open>Dispatch messages and the stored sequence\<close>

lemma receive_text:
  "socket_open s \<Longrightarrow> json_loads E tx = Inr p \<Longrightarrow> opcode_of E (i_op p) = Some oc \<Longrightarrow>
   receive E s (text_frame tx) = (Inr (Some (oc, i_t p, i_s p, i_d p)), s\<lparr>buffer := []\<rparr>)"
  by (auto simp: receive_def text_frame_def socket_open_def loads_and_return_def
      split: option.splits)

lemma handler_dispatch_any:
  assumes "receive E s r = (Inr (Some (Op_dispatch, t, sq, d)), s1)"
  shows "\<exists>s2. (\<forall>reads script. message_handler E s (r # reads) script
                  = message_handler E s2 reads script)
            \<and> sequence s2 = sq
            \<and> running_tasks s2 = running_tasks s1 @ [create_task (DispatchCoro t d sq)]
            \<and> socket s2 = socket s1"
proof -
  let ?s2 = "spawn (DispatchCoro t d sq)
      ((if t = Some ''READY'' \<or> t = Some ''RESUMED''
        then s1\<lparr>ready_received := True\<rparr> else s1)\<lparr>sequence := sq\<rparr>)"
  have h: "handle_message s1 (Op_dispatch, t, sq, d) = Next ?s2"
    by (simp add: handle_message_def Let_def)
  have "\<forall>reads script. message_handler E s (r # reads) script
      = message_handler E ?s2 reads script"
    using assms h by (simp add: messages_step_def)
  moreover have "sequence ?s2 = sq" by (simp add: spawn_def)
  moreover have "running_tasks ?s2 = running_tasks s1 @ [create_task (DispatchCoro t d sq)]"
    by (simp add: spawn_def)
  moreover have "socket ?s2 = socket s1" by (simp add: spawn_def)
  ultimately show ?thesis by blast
qed

lemma handler_dispatch_step:
  assumes "socket_open s" and "json_loads E tx = Inr p" and "opcode_of E (i_op p) = Some Op_dispatch"
  shows "\<exists>s'. (\<forall>reads script. message_handler E s (text_frame tx # reads) script
                  = message_handler E s' reads script)
            \<and> sequence s' = i_s p
            \<and> running_tasks s' = running_tasks s @ [create_task (DispatchCoro (i_t p) (i_d p) (i_s p))]
            \<and> socket s' = socket s"
  using handler_dispatch_any [OF receive_text [OF assms]] by simp

lemma handler_dispatch_run:
  assumes "list_all2 (\<lambda>tx p. json_loads E tx = Inr p \<and> opcode_of E (i_op p) = Some Op_dispatch) txs ps"
    and "socket_open s"
  shows "\<exists>s'. (\<forall>reads script. message_handler E s (map text_frame txs @ reads) script
                  = message_handler E s' reads script)
            \<and> sequence s' = (if ps = [] then sequence s else i_s (last ps))
            \<and> running_tasks s' = running_tasks s
                 @ map (\<lambda>p. create_task (DispatchCoro (i_t p) (i_d p) (i_s p))) ps"
  using assms
proof (induction arbitrary: s rule: list_all2_induct)
  case Nil
  then show ?case by auto
next
  case (Cons tx txs p ps)
  from Cons.hyps(1) Cons.prems obtain s1 where
    step: "\<forall>reads script. message_handler E s (text_frame tx # reads) script
            = message_handler E s1 reads script"
    and seq1: "sequence s1 = i_s p"
    and tasks1: "running_tasks s1 = running_tasks s @ [create_task (DispatchCoro (i_t p) (i_d p) (i_s p))]"
    and sock1: "socket s1 = socket s"
    using handler_dispatch_step [of s E tx p] by blast
  have "socket_open s1" using sock1 Cons.prems by (simp add: socket_open_def)
  from Cons.IH [OF this] obtain s' where
    rest: "\<forall>reads script. message_handler E s1 (map text_frame txs @ reads) script
            = message_handler E s' reads script"
    and seq': "sequence s' = (if ps = [] then sequence s1 else i_s (last ps))"
    and tasks': "running_tasks s' = running_tasks s1
                 @ map (\<lambda>p. create_task (DispatchCoro (i_t p) (i_d p) (i_s p))) ps"
    by blast
  have "\<forall>reads script. message_handler E s (map text_frame (tx # txs) @ reads) script
      = message_handler E s' reads script"
    using step rest by simp
  moreover have "sequence s' = (if p # ps = [] then sequence s else i_s (last (p # ps)))"
    using seq' seq1 by simp
  moreover have "running_tasks s' = running_tasks s
      @ map (\<lambda>p. create_task (DispatchCoro (i_t p) (i_d p) (i_s p))) (p # ps)"
    using tasks' tasks1 by simp
  ultimately show ?case by blast
qed

text \<open>
  C6, as the code has it. Dispatch messages are handled in the order they arrive. A
  frame of any kind that \<^verbatim>\<open>receive\<close> turns into a dispatch stores that message's \<^verbatim>\<open>s\<close>
  in \<^verbatim>\<open>self.sequence\<close>, whatever was stored before, adds one dispatch task, and the
  loop goes on with the next frame. After a run of dispatch frames (text frames here)
  the stored sequence is the \<^verbatim>\<open>s\<close> of the last one, and the new tasks are those of the
  frames in arrival order; so the stored sequence never goes down when the \<^verbatim>\<open>s\<close>
  values on the wire do not.
\<close>

theorem dispatch_in_arrival_order:
  "(\<forall>r t sq d s1. receive E s r = (Inr (Some (Op_dispatch, t, sq, d)), s1) \<longrightarrow>
      (\<exists>s2. (\<forall>reads script. message_handler E s (r # reads) script
                 = message_handler E s2 reads script)
           \<and> sequence s2 = sq
           \<and> running_tasks s2 = running_tasks s1 @ [create_task (DispatchCoro t d sq)]))
   \<and> (list_all2 (\<lambda>tx p. json_loads E tx = Inr p \<and> opcode_of E (i_op p) = Some Op_dispatch) txs ps
        \<and> socket_open s \<longrightarrow>
      (\<exists>s'. (\<forall>reads script. message_handler E s (map text_frame txs @ reads) script
                 = message_handler E s' reads script)
           \<and> sequence s' = (if ps = [] then sequence s else i_s (last ps))
           \<and> running_tasks s' = running_tasks s
                @ map (\<lambda>p. create_task (DispatchCoro (i_t p) (i_d p) (i_s p))) ps))"
proof (intro conjI allI impI)
  fix r t sq d s1
  assume "receive E s r = (Inr (Some (Op_dispatch, t, sq, d)), s1)"
  from handler_dispatch_any [OF this]
  show "\<exists>s2. (\<forall>reads script. message_handler E s (r # reads) script
                 = message_handler E s2 reads script)
           \<and> sequence s2 = sq
           \<and> running_tasks s2 = running_tasks s1 @ [create_task (DispatchCoro t d sq)]"
    by blast
next
  assume "list_all2 (\<lambda>tx p. json_loads E tx = Inr p \<and> opcode_of E (i_op p) = Some Op_dispatch) txs ps
      \<and> socket_open s"
  then show "\<exists>s'. (\<forall>reads script. message_handler E s (map text_frame txs @ reads) script
                 = message_handler E s' reads script)
           \<and> sequence s' = (if ps = [] then sequence s else i_s (last ps))
           \<and> running_tasks s' = running_tasks s
                @ map (\<lambda>p. create_task (DispatchCoro (i_t p) (i_d p) (i_s p))) ps"
    using handler_dispatch_run [of E txs ps s] by blast
qed

theorem dispatch_in_arrival_order_witness:
  "\<exists>s'. (\<forall>reads script.
            message_handler (stub_env None (Inr \<lparr>i_op = 0, i_t = Some ''MESSAGE_CREATE'', i_s = Some 3, i_d = JNull\<rparr>))
              example_shard (map text_frame [''{}''] @ reads) script
            = message_handler (stub_env None (Inr \<lparr>i_op = 0, i_t = Some ''MESSAGE_CREATE'', i_s = Some 3, i_d = JNull\<rparr>))
              s' reads script)
      \<and> sequence s' = Some 3
      \<and> running_tasks s' = [create_task (DispatchCoro (Some ''MESSAGE_CREATE'') JNull (Some 3))]"
  using dispatch_in_arrival_order [of "stub_env None (Inr \<lparr>i_op = 0, i_t = Some ''MESSAGE_CREATE'', i_s = Some 3, i_d = JNull\<rparr>)"
      example_shard "[''{}'']" "[\<lparr>i_op = 0, i_t = Some ''MESSAGE_CREATE'', i_s = Some 3, i_d = JNull\<rparr>]"]
  by (simp add: stub_env_def discord_opcode_def example_shard_def GatewayShard_def socket_open_def)

text \<open>
  The claim C6 as it is stated fails: with 5 stored, a dispatch that carries
  \<^verbatim>\<open>s = 3\<close> leaves 3 in \<^verbatim>\<open>self.sequence\<close>. Nothing in \<^verbatim>\<open>message_handler\<close> compares
  the two.
\<close>

theorem sequence_overwritten_counterexample:
  "sequence example_shard = Some 5
   \<and> message_handler (stub_env None (Inr \<lparr>i_op = 0, i_t = Some ''MESSAGE_CREATE'', i_s = Some 3, i_d = JNull\<rparr>))
       example_shard [text_frame ''{}'', error_frame] []
     = Some (Inr (),
         example_shard\<lparr>sequence := Some 3,
           running_tasks := [create_task (DispatchCoro (Some ''MESSAGE_CREATE'') JNull (Some 3))]\<rparr>,
         [], [])"
  by (simp add: example_shard_def GatewayShard_def messages_step_def receive_def text_frame_def
      error_frame_def loads_and_return_def stub_env_def discord_opcode_def handle_message_def
      spawn_def Let_def)

subsection \<open>Requesting guild members\<close>

lemma map_of_dict_set: "map_of (dict_set k v d) k = Some v"
proof (cases "k \<in> fst ` set d")
  case False
  then have "map_of d k = None" by (simp add: map_of_eq_None_iff)
  then show ?thesis using False by (simp add: dict_set_def map_add_Some_iff)
next
  case True
  then have "map_of (map (\<lambda>kv. if fst kv = k then (k, v) else kv) d) k = Some v"
    by (induction d) auto
  then show ?thesis using True by (simp add: dict_set_def)
qed

lemma send_open:
  "socket s = Some k \<Longrightarrow> \<not> closed k \<Longrightarrow>
   send s oc d = (Inr (), s\<lparr>socket := Some (k\<lparr>outbox := outbox k @ [(oc, d)]\<rparr>)\<rparr>)"
  by (simp add: send_def)

lemma send_not_open: "\<not> socket_open s \<Longrightarrow> send s oc d = (Inl ValueError, s)"
  by (auto simp: send_def socket_open_def split: option.splits)

lemma register_chunk_fields:
  "register_chunk s n = (ev, s') \<Longrightarrow>
   ev = length (events s) \<and> events s' = events s @ [False]
   \<and> map_of (chunk_event s') n = Some ev
   \<and> map_of (chunk_counter s') n = Some 0
   \<and> map_of (chunk_groups s') n = Some []
   \<and> socket s' = socket s"
  by (auto simp: register_chunk_def new_event_def Let_def map_of_dict_set)

text \<open>
  C7, as the code has it. With an open socket and a nonce that is not the empty
  string, \<^verbatim>\<open>chunk_guild\<close> registers the request (counter 0, an empty member list, a
  new unset event at the end of the event store), sends the request-members command
  with the nonce, and returns that event. Without a nonce it sends the command, leaves
  the three tables as they were and returns \<^verbatim>\<open>None\<close>. The registration is made before
  the send: when the socket is not open the call raises \<^verbatim>\<open>ValueError\<close> and the
  registration stays.
\<close>

theorem chunk_guild_registers:
  "(socket s = Some k \<and> \<not> closed k \<and> n \<noteq> [] \<longrightarrow>
      (\<exists>s'. chunk_guild s guild_id query limit user_ids (Some n)
               = (Inr (Some (length (events s))), s')
          \<and> map_of (chunk_event s') n = Some (length (events s))
          \<and> events s' = events s @ [False]
          \<and> map_of (chunk_counter s') n = Some 0
          \<and> map_of (chunk_groups s') n = Some []
          \<and> socket s' = Some (k\<lparr>outbox := outbox k @
               [(Op_request_members,
                 RequestMembers (str_int guild_id) limit
                   (case user_ids of None \<Rightarrow> Some query | Some ids \<Rightarrow> None)
                   (map_option (map str_int) user_ids) (Some n))]\<rparr>)))
   \<and> (socket s = Some k \<and> \<not> closed k \<longrightarrow>
      chunk_guild s guild_id query limit user_ids None
        = (Inr None, s\<lparr>socket := Some (k\<lparr>outbox := outbox k @
               [(Op_request_members,
                 RequestMembers (str_int guild_id) limit
                   (case user_ids of None \<Rightarrow> Some query | Some ids \<Rightarrow> None)
                   (map_option (map str_int) user_ids) None)]\<rparr>)\<rparr>))
   \<and> (\<not> socket_open s \<and> n \<noteq> [] \<longrightarrow>
      chunk_guild s guild_id query limit user_ids (Some n)
        = (Inl ValueError, snd (register_chunk s n)))"
proof (intro conjI impI)
  assume a: "socket s = Some k \<and> \<not> closed k \<and> n \<noteq> []"
  obtain ev s1 where reg: "register_chunk s n = (ev, s1)" by (cases "register_chunk s n")
  note f = register_chunk_fields [OF reg]
  have sock: "socket s1 = Some k" using f a by simp
  show "\<exists>s'. chunk_guild s guild_id query limit user_ids (Some n)
               = (Inr (Some (length (events s))), s')
          \<and> map_of (chunk_event s') n = Some (length (events s))
          \<and> events s' = events s @ [False]
          \<and> map_of (chunk_counter s') n = Some 0
          \<and> map_of (chunk_groups s') n = Some []
          \<and> socket s' = Some (k\<lparr>outbox := outbox k @
               [(Op_request_members,
                 RequestMembers (str_int guild_id) limit
                   (case user_ids of None \<Rightarrow> Some query | Some ids \<Rightarrow> None)
                   (map_option (map str_int) user_ids) (Some n))]\<rparr>)"
    using a f reg send_open [OF sock]
    by (simp add: chunk_guild_def truthy_nonce_def Let_def)
next
  assume a: "socket s = Some k \<and> \<not> closed k"
  then show "chunk_guild s guild_id query limit user_ids None
        = (Inr None, s\<lparr>socket := Some (k\<lparr>outbox := outbox k @
               [(Op_request_members,
                 RequestMembers (str_int guild_id) limit
                   (case user_ids of None \<Rightarrow> Some query | Some ids \<Rightarrow> None)
                   (map_option (map str_int) user_ids) None)]\<rparr>)\<rparr>)"
    using send_open [of s k] by (simp add: chunk_guild_def truthy_nonce_def Let_def)
next
  assume a: "\<not> socket_open s \<and> n \<noteq> []"
  obtain ev s1 where reg: "register_chunk s n = (ev, s1)" by (cases "register_chunk s n")
  have "socket s1 = socket s" using register_chunk_fields [OF reg] by simp
  then have "\<not> socket_open s1" using a by (simp add: socket_open_def)
  then show "chunk_guild s guild_id query limit user_ids (Some n)
        = (Inl ValueError, snd (register_chunk s n))"
    using a reg send_not_open [of s1]
    by (simp add: chunk_guild_def truthy_nonce_def Let_def)
qed

theorem chunk_guild_registers_witness:
  "\<exists>s'. chunk_guild example_shard 7 '''' 0 None (Some ''n1'') = (Inr (Some 0), s')
      \<and> map_of (chunk_event s') ''n1'' = Some 0
      \<and> events s' = [False]
      \<and> map_of (chunk_counter s') ''n1'' = Some 0
      \<and> map_of (chunk_groups s') ''n1'' = Some []"
  using chunk_guild_registers [of example_shard "\<lparr>closed = False, outbox = []\<rparr>" "''n1''" 7 "''''" 0 None]
  by (simp add: example_shard_def GatewayShard_def) blast

text \<open>
  The claim C7 as it is stated fails for the nonce \<^verbatim>\<open>""\<close>: \<^verbatim>\<open>if nonce:\<close> is false for
  it, so nothing is registered, the command carries no nonce and the caller gets
  \<^verbatim>\<open>None\<close>.
\<close>

theorem chunk_guild_empty_nonce_counterexample:
  "chunk_guild example_shard 7 '''' 0 None (Some '''')
     = (Inr None,
        example_shard\<lparr>socket := Some \<lparr>closed = False,
          outbox = [(Op_request_members, RequestMembers (str_int 7) 0 (Some '''') None None)]\<rparr>\<rparr>)"
  by (simp add: chunk_guild_def truthy_nonce_def send_def example_shard_def GatewayShard_def)

subsection \<open>The heartbeat and a missing acknowledgement\<close>

text \<open>
  C2 does not hold of the code. The heartbeat is sent, no acknowledgement comes within
  ten seconds, and \<^verbatim>\<open>asyncio.wait_for\<close> raises \<^verbatim>\<open>asyncio.TimeoutError\<close>. The handlers
  around it are \<^verbatim>\<open>except asyncio.CancelledError\<close> and \<^verbatim>\<open>except ValueError\<close>, so the
  exception leaves \<^verbatim>\<open>heartbeat\<close>: there is no retry, and no reconnect task is created.
\<close>

theorem heartbeat_timeout_not_handled:
  "heartbeat example_shard 41250 False [Slept] [AckTimeout]
     = Some (Inl TimeoutError,
         example_shard\<lparr>socket := Some \<lparr>closed = False,
           outbox = [(Op_heartbeat, HeartbeatData (Some 5))]\<rparr>\<rparr>)
   \<and> running_tasks example_shard = []"
  by (simp add: heartbeat_def beat_loop.simps send_def example_shard_def GatewayShard_def)

text \<open>
  The branch that retries is the one for a cancelled wait. There \<^verbatim>\<open>beat_attempt <= 5\<close>
  lets the attempts 0 to 5 go round again: after six cancelled waits the loop is still
  trying, and the seventh creates the one reconnect task. A send on a socket that is
  not open creates the reconnect task at once.
\<close>

lemma heartbeat_cancelled_retries:
  "heartbeat example_shard 41250 False [Slept] (replicate 6 WaitCancelled) = None"
  by (simp add: heartbeat_def beat_loop.simps send_def example_shard_def GatewayShard_def
      numeral_eq_Suc)

lemma heartbeat_cancelled_seven:
  "map_option (\<lambda>r. (fst r, map coro (running_tasks (snd r))))
     (heartbeat example_shard 41250 False [Slept] (replicate 7 WaitCancelled))
   = Some (Inr (), [ConnectCoro (JBool True)])"
  by (simp add: heartbeat_def beat_loop.simps send_def example_shard_def GatewayShard_def
      numeral_eq_Suc spawn_def create_task_def)

lemma heartbeat_closed_socket:
  "\<not> socket_open s \<Longrightarrow> 0 < heartbeat_interval \<Longrightarrow>
   heartbeat s heartbeat_interval jitter (Slept # sleeps) acks
     = Some (Inr (), spawn (ConnectCoro (JBool True)) s)"
  by (auto simp: heartbeat_def beat_loop.simps send_def socket_open_def split: option.splits)

subsection \<open>The identify semaphore bounds the handshake window\<close>

lemma count_update:
  "i < length xs \<Longrightarrow>
   length (filter (\<lambda>ph. ph = Holding) (xs[i := v])) + (if xs ! i = Holding then 1 else 0)
     = length (filter (\<lambda>ph. ph = Holding) xs) + (if v = Holding then 1 else 0)"
proof (induction xs arbitrary: i)
  case Nil
  then show ?case by simp
next
  case (Cons x xs)
  show ?case
  proof (cases i)
    case 0
    then show ?thesis by auto
  next
    case (Suc j)
    then have "j < length xs" using Cons.prems by simp
    from Cons.IH [OF this] show ?thesis using Suc by (simp split: if_splits)
  qed
qed

lemma sem_step_invariant:
  "in_window p + sem_value p = c \<Longrightarrow> in_window (sem_step p a) + sem_value (sem_step p a) = c"
proof (cases a)
  case (Enter i)
  assume inv: "in_window p + sem_value p = c"
  show ?thesis
  proof (cases "i < length (phases p) \<and> phases p ! i = Outside")
    case True
    then show ?thesis using inv Enter count_update [of i "phases p" Waiting]
      by (simp add: in_window_def)
  next
    case False
    then show ?thesis using inv Enter by auto
  qed
next
  case (Acquire i)
  assume inv: "in_window p + sem_value p = c"
  show ?thesis
  proof (cases "i < length (phases p) \<and> phases p ! i = Waiting \<and> 0 < sem_value p")
    case True
    then show ?thesis using inv Acquire count_update [of i "phases p" Holding]
      by (simp add: in_window_def)
  next
    case False
    then show ?thesis using inv Acquire by auto
  qed
next
  case (Exit i)
  assume inv: "in_window p + sem_value p = c"
  show ?thesis
  proof (cases "i < length (phases p) \<and> phases p ! i = Holding")
    case True
    then show ?thesis using inv Exit count_update [of i "phases p" Outside]
      by (simp add: in_window_def)
  next
    case False
    then show ?thesis using inv Exit by auto
  qed
qed

lemma sem_run_invariant:
  "in_window p + sem_value p = c \<Longrightarrow>
   in_window (sem_run p acts) + sem_value (sem_run p acts) = c"
  unfolding sem_run_def
  by (induction acts arbitrary: p) (simp_all add: sem_step_invariant)

lemma sem_init_invariant: "in_window (sem_init c n) + sem_value (sem_init c n) = c"
  by (simp add: sem_init_def in_window_def)

text \<open>
  C5. Whatever the number of shards, the capacity \<^verbatim>\<open>max_concurrency\<close> (at least 1) and
  the order in which the tasks take their steps, the tasks that hold the identify
  permit (from acquiring it, through sending IDENTIFY or RESUME, to leaving the
  \<^verbatim>\<open>async with\<close> block) are never more than the capacity; together with the
  semaphore's counter they are exactly the capacity.
\<close>

theorem identify_window_bounded:
  "1 \<le> max_concurrency \<Longrightarrow>
   in_window (sem_run (sem_init max_concurrency shards) acts) \<le> max_concurrency
   \<and> in_window (sem_run (sem_init max_concurrency shards) acts)
       + sem_value (sem_run (sem_init max_concurrency shards) acts) = max_concurrency"
  using sem_run_invariant [OF sem_init_invariant, of max_concurrency shards acts] by simp

theorem identify_window_bounded_witness:
  "sem_run (sem_init 1 3) [Enter 0, Enter 1, Enter 2, Acquire 1, Acquire 0, Acquire 2]
     = \<lparr>sem_value = 0, phases = [Waiting, Holding, Waiting]\<rparr>
   \<and> in_window (sem_run (sem_init 1 3) [Enter 0, Enter 1, Enter 2, Acquire 1, Acquire 0, Acquire 2]) \<le> 1"
  using identify_window_bounded [of 1 3 "[Enter 0, Enter 1, Enter 2, Acquire 1, Acquire 0, Acquire 2]"]
  by (simp add: sem_run_def sem_init_def numeral_eq_Suc)

subsection \<open>The session through a reconnect\<close>

lemma receive_keeps:
  "receive E s r = (res, s') \<Longrightarrow>
   session_id s' = session_id s \<and> sequence s' = sequence s \<and> socket s' = socket s
   \<and> token s' = token s \<and> shard_id s' = shard_id s \<and> shard_count s' = shard_count s
   \<and> intents s' = intents s \<and> state s' = state s \<and> message_task s' = message_task s
   \<and> heartbeat_task s' = heartbeat_task s \<and> connecting s' = connecting s"
  by (auto simp: receive_def loads_and_return_def parse_failed_def Let_def
      split: option.splits if_splits read_outcome.splits ws_data.splits sum.splits)

lemma prepare_keeps:
  "prepare s url rc sl = (s5, rc', url') \<Longrightarrow>
   session_id s5 = session_id s \<and> token s5 = token s \<and> shard_id s5 = shard_id s
   \<and> shard_count s5 = shard_count s \<and> intents s5 = intents s
   \<and> rc' = (rc \<or> socket_open s)
   \<and> sequence s5 = (if rc' then sequence s else None)"
  by (auto simp: prepare_def Let_def close_def socket_open_def split: if_splits)

lemma open_and_send_sent:
  assumes "open_and_send E s rc a = Sent s9"
  shows "session_id s9 = session_id s \<and> sequence s9 = sequence s
   \<and> token s9 = token s \<and> shard_id s9 = shard_id s
   \<and> shard_count s9 = shard_count s \<and> intents s9 = intents s
   \<and> socket s9 = Some \<lparr>closed = False,
         outbox = [if rc then (Op_resume, ResumeData (token s) (session_id s) (sequence s))
                   else (Op_identify, IdentifyData (token s) (platform_system E)
                           (shard_id s) (shard_count s) (intents s))]\<rparr>"
  using assms
  by (auto simp: open_and_send_def Let_def resume_def identify_def send_def
      split: if_splits hello_outcome.splits prod.splits sum.splits option.splits
      dest!: receive_keeps)

lemma open_and_send_not_sent:
  assumes "open_and_send E s rc a = NotSent r" and "r = Retry s' \<or> r = Finished r1 s'"
  shows "session_id s' = session_id s \<and> token s' = token s \<and> shard_id s' = shard_id s
   \<and> shard_count s' = shard_count s \<and> intents s' = intents s"
  using assms
  by (auto simp: open_and_send_def Let_def resume_def identify_def send_def gave_up_def
      split: if_splits hello_outcome.splits prod.splits sum.splits option.splits
      dest!: receive_keeps)

lemma open_and_send_not_ready:
  assumes "open_and_send E s rc a = NotSent (Finished r1 s')"
  shows "state s' \<noteq> ''Ready''"
  using assms
  by (auto simp: open_and_send_def Let_def resume_def identify_def send_def gave_up_def
      split: if_splits hello_outcome.splits prod.splits sum.splits option.splits
      dest!: receive_keeps)

lemma outbox_after_close:
  "map_option outbox (map_option (\<lambda>k. if closed k then k else k\<lparr>closed := True\<rparr>) so)
     = map_option outbox so"
  "map_option outbox (map_option (\<lambda>k. k\<lparr>closed := True\<rparr>) so) = map_option outbox so"
  by (cases so; simp)+

lemma handle_message_keeps:
  assumes "handle_message s m = Next s' \<or> handle_message s m = Return s'"
  shows "session_id s' = session_id s \<and> token s' = token s \<and> shard_id s' = shard_id s
   \<and> shard_count s' = shard_count s \<and> intents s' = intents s
   \<and> map_option outbox (socket s') = map_option outbox (socket s)"
  using assms
  by (auto simp: handle_message_def Let_def spawn_def close_by_message_task_def close_def
        outbox_after_close
      split: prod.splits GatewayOpcode.splits if_splits)

lemma message_task_until_ready_keeps:
  "session_id (message_task_until_ready s ms) = session_id s
   \<and> token (message_task_until_ready s ms) = token s
   \<and> shard_id (message_task_until_ready s ms) = shard_id s
   \<and> shard_count (message_task_until_ready s ms) = shard_count s
   \<and> intents (message_task_until_ready s ms) = intents s
   \<and> map_option outbox (socket (message_task_until_ready s ms)) = map_option outbox (socket s)"
proof (induction ms arbitrary: s)
  case Nil
  then show ?case by simp
next
  case (Cons m ms)
  show ?case
  proof (cases "ready_received s")
    case True
    then show ?thesis by simp
  next
    case False
    show ?thesis
    proof (cases "handle_message s m")
      case (Next s1)
      then show ?thesis
        using False Cons.IH [of s1] handle_message_keeps [of s m s1] by simp
    next
      case (Return s1)
      then show ?thesis using False handle_message_keeps [of s m s1] by simp
    qed
  qed
qed

lemma await_ready_keeps:
  assumes "await_ready s a = Retry s' \<or> await_ready s a = Finished r s'"
  shows "session_id s' = session_id s \<and> token s' = token s \<and> shard_id s' = shard_id s
   \<and> shard_count s' = shard_count s \<and> intents s' = intents s
   \<and> map_option outbox (socket s') = map_option outbox (socket s)"
  using assms
    message_task_until_ready_keeps [of "s\<lparr>state := ''Waiting for READY/RESUMED''\<rparr>" "during_wait a"]
  by (auto simp: await_ready_def Let_def gave_up_def outbox_after_close
      split: if_splits)

lemma handshake_keeps:
  assumes "handshake E s rc a = Retry s' \<or> handshake E s rc a = Finished r s'"
  shows "session_id s' = session_id s \<and> token s' = token s \<and> shard_id s' = shard_id s
   \<and> shard_count s' = shard_count s \<and> intents s' = intents s"
proof (cases "open_and_send E s rc a")
  case (Sent s9)
  then have "await_ready s9 a = Retry s' \<or> await_ready s9 a = Finished r s'"
    using assms by (simp add: handshake_def)
  from await_ready_keeps [OF this] open_and_send_sent [OF Sent] show ?thesis by simp
next
  case (NotSent r0)
  then have "r0 = Retry s' \<or> r0 = Finished r s'" using assms by (simp add: handshake_def)
  from open_and_send_not_sent [OF NotSent this] show ?thesis .
qed

lemma handshake_ready_sent:
  assumes "handshake E s rc a = Finished r s'" and "state s' = ''Ready''"
  shows "map_option outbox (socket s')
     = Some [if rc then (Op_resume, ResumeData (token s) (session_id s) (sequence s))
             else (Op_identify, IdentifyData (token s) (platform_system E)
                     (shard_id s) (shard_count s) (intents s))]"
proof (cases "open_and_send E s rc a")
  case (Sent s9)
  then have "await_ready s9 a = Finished r s'" using assms by (simp add: handshake_def)
  then have "map_option outbox (socket s') = map_option outbox (socket s9)"
    using await_ready_keeps [of s9 a s' r] by simp
  then show ?thesis using open_and_send_sent [OF Sent] by simp
next
  case (NotSent r0)
  then have "open_and_send E s rc a = NotSent (Finished r s')"
    using assms by (simp add: handshake_def)
  from open_and_send_not_ready [OF this] assms(2) show ?thesis by simp
qed

lemma connect_inner_sent:
  "connect_inner E s url rc n sl script = Some (r, s', rest) \<Longrightarrow> state s' = ''Ready'' \<Longrightarrow>
   (\<exists>sq. map_option outbox (socket s')
            = Some [(Op_resume, ResumeData (token s) (session_id s) sq)])
   \<or> (\<not> rc \<and> \<not> socket_open s
       \<and> map_option outbox (socket s')
            = Some [(Op_identify, IdentifyData (token s) (platform_system E)
                       (shard_id s) (shard_count s) (intents s))])"
proof (induction script arbitrary: s url rc n sl)
  case Nil
  then show ?case by simp
next
  case (Cons a script)
  obtain s5 rc' url' where p: "prepare s url rc sl = (s5, rc', url')"
    by (cases "prepare s url rc sl") auto
  note pk = prepare_keeps [OF p]
  show ?case
  proof (cases "handshake E s5 rc' a")
    case (Retry s6)
    then have hk: "session_id s6 = session_id s5 \<and> token s6 = token s5
        \<and> shard_id s6 = shard_id s5 \<and> shard_count s6 = shard_count s5
        \<and> intents s6 = intents s5"
      using handshake_keeps [of E s5 rc' a s6] by simp
    have "connect_inner E s6 (Some url') rc' (Suc n) 0 script = Some (r, s', rest)"
      using Cons.prems(1) p Retry by simp
    from Cons.IH [OF this Cons.prems(2)] show ?thesis using hk pk by auto
  next
    case (Finished r1 s6)
    have eq: "s' = s6" using Cons.prems(1) p Finished by simp
    from handshake_ready_sent [of E s5 rc' a r1 s'] Finished eq Cons.prems(2)
    show ?thesis using pk by (auto split: if_splits)
  qed
qed

text \<open>
  C1, as the code has it. In every pass of \<^verbatim>\<open>_connect\<close> that gets as far as sending
  its handshake command, the session id at the send is the one stored at entry. If the
  pass was entered with \<^verbatim>\<open>reconnect=True\<close>, or with the socket still open (then it
  closes the socket and sets \<^verbatim>\<open>reconnect\<close> itself), the sequence at the send is the
  one stored at entry and the one command on the new socket is RESUME with the stored
  session id and sequence. If it was entered with \<^verbatim>\<open>reconnect=False\<close> and no open
  socket, the sequence is absent at the send, the command is IDENTIFY, and the session
  id is still stored. And a resumable \<^verbatim>\<open>_connect\<close> that ends Ready, after any number of
  failed passes, has sent RESUME with the session id stored at entry on the socket it
  ends with. What is stored after the send is the business of the message task: the
  READY or RESUMED dispatch that ends the wait stores its own \<^verbatim>\<open>s\<close>.
\<close>

theorem session_through_connect:
  "(pass_to_send E s url rc sl a = Sent s9 \<longrightarrow>
       session_id s9 = session_id s
     \<and> (rc \<or> socket_open s \<longrightarrow>
          sequence s9 = sequence s
          \<and> socket s9 = Some \<lparr>closed = False,
               outbox = [(Op_resume, ResumeData (token s) (session_id s) (sequence s))]\<rparr>)
     \<and> (\<not> rc \<and> \<not> socket_open s \<longrightarrow>
          sequence s9 = None
          \<and> socket s9 = Some \<lparr>closed = False,
               outbox = [(Op_identify, IdentifyData (token s) (platform_system E)
                            (shard_id s) (shard_count s) (intents s))]\<rparr>))
   \<and> (connect_inner E s url rc n sl script = Some (r, s', rest) \<and> state s' = ''Ready''
        \<and> (rc \<or> socket_open s) \<longrightarrow>
       (\<exists>sq. map_option outbox (socket s')
                = Some [(Op_resume, ResumeData (token s) (session_id s) sq)]))"
proof (intro conjI impI)
  assume sent: "pass_to_send E s url rc sl a = Sent s9"
  obtain s5 rc' url' where p: "prepare s url rc sl = (s5, rc', url')"
    by (cases "prepare s url rc sl") auto
  note pk = prepare_keeps [OF p]
  have os: "open_and_send E s5 rc' a = Sent s9" using sent p by (simp add: pass_to_send_def)
  note ok = open_and_send_sent [OF os]
  show "session_id s9 = session_id s" using pk ok by simp
  show "sequence s9 = sequence s" if "rc \<or> socket_open s" using that pk ok by simp
  show "socket s9 = Some \<lparr>closed = False,
      outbox = [(Op_resume, ResumeData (token s) (session_id s) (sequence s))]\<rparr>"
    if "rc \<or> socket_open s" using that pk ok by simp
  show "sequence s9 = None" if "\<not> rc \<and> \<not> socket_open s" using that pk ok by simp
  show "socket s9 = Some \<lparr>closed = False,
      outbox = [(Op_identify, IdentifyData (token s) (platform_system E)
                   (shard_id s) (shard_count s) (intents s))]\<rparr>"
    if "\<not> rc \<and> \<not> socket_open s" using that pk ok by simp
next
  assume "connect_inner E s url rc n sl script = Some (r, s', rest) \<and> state s' = ''Ready''
      \<and> (rc \<or> socket_open s)"
  then show "\<exists>sq. map_option outbox (socket s')
      = Some [(Op_resume, ResumeData (token s) (session_id s) sq)]"
    using connect_inner_sent [of E s url rc n sl script r s' rest] by auto
qed

theorem session_through_connect_witness:
  "\<exists>s9. pass_to_send hello_env ready_shard None False 0 good_attempt = Sent s9
      \<and> session_id s9 = Some ''abc'' \<and> sequence s9 = Some 5
      \<and> socket s9 = Some \<lparr>closed = False,
           outbox = [(Op_resume, ResumeData (Some ''token'') (Some ''abc'') (Some 5))]\<rparr>"
proof -
  have "\<exists>s9. pass_to_send hello_env ready_shard None False 0 good_attempt = Sent s9"
    by (simp add: pass_to_send_def prepare_def open_and_send_def receive_def
        loads_and_return_def subscript_def resume_def send_def close_def socket_open_def
        hello_env_def stub_env_def discord_opcode_def good_attempt_def text_frame_def
        ready_shard_def example_shard_def GatewayShard_def Let_def)
  then obtain s9 where run: "pass_to_send hello_env ready_shard None False 0 good_attempt = Sent s9"
    by blast
  have op: "socket_open ready_shard"
    by (simp add: ready_shard_def example_shard_def socket_open_def)
  from session_through_connect [of hello_env ready_shard None False 0 good_attempt s9] run op
  show ?thesis
    by (simp add: ready_shard_def example_shard_def GatewayShard_def)
qed

text \<open>
  The claim C1 as it is stated fails on the non-resumable path. An invalidate with
  \<^verbatim>\<open>d = false\<close> closes the socket and starts \<^verbatim>\<open>connect(reconnect=False)\<close>; when that
  connect sends IDENTIFY the sequence has been cleared and the session id \<^verbatim>\<open>"abc"\<close> is
  still stored. No assignment to \<^verbatim>\<open>session_id\<close> stands in gateway.py after
  \<^verbatim>\<open>__init__\<close>.
\<close>

theorem session_id_not_cleared_counterexample:
  "handle_message ready_shard (Op_invalidate_session, None, None, JBool False)
     = Return (spawn (ConnectCoro (JBool False))
         (snd (close_by_message_task (ready_shard\<lparr>ready_received := True\<rparr>) 1000)))
   \<and> (\<exists>s9. pass_to_send hello_env
               (spawn (ConnectCoro (JBool False))
                 (snd (close_by_message_task (ready_shard\<lparr>ready_received := True\<rparr>) 1000)))
               None False 0 good_attempt = Sent s9
          \<and> session_id s9 = Some ''abc'' \<and> sequence s9 = None
          \<and> socket s9 = Some \<lparr>closed = False,
               outbox = [(Op_identify, IdentifyData (Some ''token'') ''Linux'' 0 1 0)]\<rparr>)"
  by (simp add: handle_message_def spawn_def close_by_message_task_def
        pass_to_send_def prepare_def open_and_send_def receive_def
        loads_and_return_def subscript_def identify_def send_def close_def socket_open_def
        hello_env_def stub_env_def discord_opcode_def good_attempt_def text_frame_def
        ready_shard_def example_shard_def GatewayShard_def Let_def)

subsection \<open>Frames that fail to decompress or parse\<close>






end
